theory Spec2Isabelle
  imports Main "HOL-Library.Sublist" "HOL-Library.Multiset"
begin

section \<open>The incident dashboard of \<^verbatim>\<open>src/App.tsx\<close>\<close>

text \<open>
  The component keeps six pieces of React state: the list of incidents (the Store), the
  severity filter, the sort order, the id of the expanded incident, the draft of the report
  form and the search text. Every handler is modelled as a function from the state to the
  next state.

  What the platform supplies is an input of the model: the two clock reads of
  \<^verbatim>\<open>handleAddIncident\<close>, and the functions \<^verbatim>\<open>String.prototype.trim\<close>,
  \<^verbatim>\<open>String.prototype.toLowerCase\<close> and \<^verbatim>\<open>new Date(s).getTime()\<close>, which are the parameters
  \<open>trim\<close>, \<open>toLowerCase\<close> and \<open>getTime\<close> of the functions that call them. A property
  proved for every value of a parameter holds for the platform's function. Strings are
  lists of code units (\<^typ>\<open>string\<close>).
\<close>

subsection \<open>Data\<close>

text \<open>
  \<^verbatim>\<open>interface Incident\<close>. The field \<^verbatim>\<open>id\<close> is written \<open>id'\<close>. The severity is the string
  the interface's union type allows at run time: the form's value is a \<^verbatim>\<open>string\<close> that
  \<^verbatim>\<open>handleAddIncident\<close> casts without a check. The optional \<^verbatim>\<open>tags?\<close> is an option:
  \<open>None\<close> is the absent field.
\<close>

record Incident =
  id' :: int
  title :: string
  description :: string
  severity :: string
  reported_at :: string
  acknowledged :: bool
  tags :: "string list option"

text \<open>The object of \<^verbatim>\<open>useState({title: "", description: "", severity: "Low", tags: ""})\<close>.\<close>

record Draft =
  draft_title :: string
  draft_description :: string
  draft_severity :: string
  draft_tags :: string

text \<open>The state of \<^verbatim>\<open>App\<close>, one field for each \<^verbatim>\<open>useState\<close>.\<close>

record App =
  incidents :: "Incident list"
  filter_sev :: string
  sortOrder :: string
  expanded :: "int option"
  newIncident :: Draft
  search :: string

definition initialIncidents :: "Incident list" where
  "initialIncidents =
    [\<lparr>id' = 1, title = ''Biased Recommendation Algorithm'',
      description = ''Algorithm consistently favored certain demographics...'',
      severity = ''Medium'', reported_at = ''2025-03-15T10:00:00Z'',
      acknowledged = False, tags = Some [''Bias'', ''Algorithm'']\<rparr>,
     \<lparr>id' = 2, title = ''LLM Hallucination in Critical Info'',
      description = ''LLM provided incorrect safety procedure information...'',
      severity = ''High'', reported_at = ''2025-04-01T14:30:00Z'',
      acknowledged = False, tags = Some [''Hallucination'', ''LLM'']\<rparr>,
     \<lparr>id' = 3, title = ''Minor Data Leak via Chatbot'',
      description = ''Chatbot inadvertently exposed non-sensitive user metadata...'',
      severity = ''Low'', reported_at = ''2025-03-20T09:15:00Z'',
      acknowledged = False, tags = Some [''Privacy'', ''Chatbot'']\<rparr>]"

definition emptyDraft :: Draft where
  "emptyDraft = \<lparr>draft_title = [], draft_description = [],
                  draft_severity = ''Low'', draft_tags = []\<rparr>"

definition initialApp :: App where
  "initialApp = \<lparr>incidents = initialIncidents, filter_sev = ''All'', sortOrder = ''newest'',
                  expanded = None, newIncident = emptyDraft, search = []\<rparr>"

subsection \<open>String primitives\<close>

text \<open>\<^verbatim>\<open>s.includes(t)\<close>: \<open>t\<close> starts at some position of \<open>s\<close>.\<close>

fun includes_str :: "string \<Rightarrow> string \<Rightarrow> bool" where
  "includes_str [] t = (t = [])"
| "includes_str (c # cs) t = (prefix t (c # cs) \<or> includes_str cs t)"

text \<open>
  \<^verbatim>\<open>s.split(",")\<close> for a separator of one character: the pieces between the separators,
  at least one piece (\<^verbatim>\<open>"".split(",")\<close> is \<^verbatim>\<open>[""]\<close>).
\<close>

fun split_str :: "char \<Rightarrow> string \<Rightarrow> string list" where
  "split_str sep [] = [[]]"
| "split_str sep (c # cs) =
     (if c = sep then [] # split_str sep cs
      else (case split_str sep cs of [] \<Rightarrow> [[c]] | p # ps \<Rightarrow> (c # p) # ps))"

text \<open>\<^verbatim>\<open>pieces.join(sep)\<close>, to say what the pieces of a split are.\<close>

fun join_str :: "char \<Rightarrow> string list \<Rightarrow> string" where
  "join_str sep [] = []"
| "join_str sep [p] = p"
| "join_str sep (p # q # ps) = p @ sep # join_str sep (q # ps)"

subsection \<open>The handlers\<close>

text \<open>
  \<^verbatim>\<open>handleAddIncident\<close>. \<open>now\<close> is the value of \<^verbatim>\<open>Date.now()\<close> and \<open>stamp\<close> the value of
  \<^verbatim>\<open>new Date().toISOString()\<close>, the two clock reads of the handler; \<open>trim\<close> is the
  platform's \<^verbatim>\<open>String.prototype.trim\<close>. The empty string is the only falsy string, so
  \<^verbatim>\<open>!s.trim()\<close> is \<open>trim s = []\<close> and \<^verbatim>\<open>filter(Boolean)\<close> keeps the non-empty pieces.
\<close>

definition newEntry :: "(string \<Rightarrow> string) \<Rightarrow> int \<Rightarrow> string \<Rightarrow> Draft \<Rightarrow> Incident" where
  "newEntry trim now stamp d =
     \<lparr>id' = now, title = draft_title d, description = draft_description d,
      severity = draft_severity d, reported_at = stamp, acknowledged = False,
      tags = Some (filter (\<lambda>tag. tag \<noteq> []) (map trim (split_str CHR '','' (draft_tags d))))\<rparr>"

definition handleAddIncident :: "(string \<Rightarrow> string) \<Rightarrow> int \<Rightarrow> string \<Rightarrow> App \<Rightarrow> App" where
  "handleAddIncident trim now stamp st =
     (if trim (draft_title (newIncident st)) = [] \<or> trim (draft_description (newIncident st)) = []
      then st
      else st\<lparr>incidents := newEntry trim now stamp (newIncident st) # incidents st,
              newIncident := emptyDraft\<rparr>)"

text \<open>\<^verbatim>\<open>toggleAcknowledge\<close>: the updater maps over the previous list.\<close>

definition toggleAcknowledge :: "int \<Rightarrow> App \<Rightarrow> App" where
  "toggleAcknowledge i st =
     st\<lparr>incidents :=
          map (\<lambda>incident. if id' incident = i
                            then incident\<lparr>acknowledged := \<not> acknowledged incident\<rparr>
                            else incident)
              (incidents st)\<rparr>"

text \<open>
  The click handler of the details button:
  \<^verbatim>\<open>setExpanded(expanded === incident.id ? null : incident.id)\<close>; the details of an incident
  are rendered when \<^verbatim>\<open>expanded === incident.id\<close>.
\<close>

definition toggleDetails :: "int \<Rightarrow> App \<Rightarrow> App" where
  "toggleDetails x st = st\<lparr>expanded := (if expanded st = Some x then None else Some x)\<rparr>"

definition showsDetails :: "App \<Rightarrow> Incident \<Rightarrow> bool" where
  "showsDetails st incident = (expanded st = Some (id' incident))"

subsection \<open>The derived view\<close>

text \<open>The callback of the first \<^verbatim>\<open>filter\<close>.\<close>

definition severityKeep :: "string \<Rightarrow> Incident \<Rightarrow> bool" where
  "severityKeep f i = (if f = ''All'' then True else severity i = f)"

text \<open>
  The callback of the second \<^verbatim>\<open>filter\<close> is a chain of \<^verbatim>\<open>||\<close> whose last operand,
  \<^verbatim>\<open>i.tags?.some(...)\<close>, is \<^verbatim>\<open>undefined\<close> when the field is absent. The value of the chain
  is a boolean or \<^verbatim>\<open>undefined\<close> (\<open>None\<close>), and \<^verbatim>\<open>filter\<close> keeps the element when the value
  is truthy. \<open>toLowerCase\<close> is the platform's \<^verbatim>\<open>String.prototype.toLowerCase\<close>.
\<close>

definition tagsSome :: "string list option \<Rightarrow> (string \<Rightarrow> bool) \<Rightarrow> bool option" where
  "tagsSome ts p = (case ts of None \<Rightarrow> None | Some l \<Rightarrow> Some (list_ex p l))"

definition truthy :: "bool option \<Rightarrow> bool" where
  "truthy v = (case v of None \<Rightarrow> False | Some b \<Rightarrow> b)"

definition searchValue :: "(string \<Rightarrow> string) \<Rightarrow> string \<Rightarrow> Incident \<Rightarrow> bool option" where
  "searchValue toLowerCase s i =
     (if includes_str (toLowerCase (title i)) (toLowerCase s) then Some True
      else if includes_str (toLowerCase (description i)) (toLowerCase s) then Some True
      else tagsSome (tags i) (\<lambda>tag. includes_str (toLowerCase tag) (toLowerCase s)))"

definition searchKeep :: "(string \<Rightarrow> string) \<Rightarrow> string \<Rightarrow> Incident \<Rightarrow> bool" where
  "searchKeep toLowerCase s i = truthy (searchValue toLowerCase s i)"

definition severityFiltered :: "App \<Rightarrow> Incident list" where
  "severityFiltered st = filter (severityKeep (filter_sev st)) (incidents st)"

definition filtered :: "(string \<Rightarrow> string) \<Rightarrow> App \<Rightarrow> Incident list" where
  "filtered toLowerCase st = filter (searchKeep toLowerCase (search st)) (severityFiltered st)"

text \<open>
  A time value is an integer number of milliseconds or \<^verbatim>\<open>NaN\<close> (\<open>None\<close>), the time value
  of an invalid date. \<open>getTime s\<close> stands for \<^verbatim>\<open>new Date(s).getTime()\<close>; the platform's parser
  is a parameter of the view. A difference with a \<^verbatim>\<open>NaN\<close> operand is \<^verbatim>\<open>NaN\<close>; the sign of
  a difference of two time values is exact.
\<close>

definition minus_num :: "int option \<Rightarrow> int option \<Rightarrow> int option" where
  "minus_num a b =
     (case a of None \<Rightarrow> None | Some x \<Rightarrow> (case b of None \<Rightarrow> None | Some y \<Rightarrow> Some (x - y)))"

definition compareFn ::
  "(string \<Rightarrow> int option) \<Rightarrow> string \<Rightarrow> Incident \<Rightarrow> Incident \<Rightarrow> int option" where
  "compareFn getTime order a b =
     (if order = ''newest''
      then minus_num (getTime (reported_at b)) (getTime (reported_at a))
      else minus_num (getTime (reported_at a)) (getTime (reported_at b)))"

text \<open>
  \<^verbatim>\<open>Array.prototype.sort\<close> with a comparator. The language's \<^verbatim>\<open>SortCompare\<close> reads a \<^verbatim>\<open>NaN\<close>
  result as \<open>0\<close>, and the sort is stable: an element stays before the later elements that it
  does not compare greater than. The model is the insertion sort with that property. (For
  a comparator that is not a consistent ordering the language leaves the order to the
  implementation; the insertion sort is then one of the permitted outcomes.) The call sorts
  the fresh array that \<^verbatim>\<open>filter\<close> returned, never the Store.
\<close>

definition sortCompare :: "('a \<Rightarrow> 'a \<Rightarrow> int option) \<Rightarrow> 'a \<Rightarrow> 'a \<Rightarrow> int" where
  "sortCompare cmp x y = (case cmp x y of None \<Rightarrow> 0 | Some v \<Rightarrow> v)"

fun sortInsert :: "('a \<Rightarrow> 'a \<Rightarrow> int option) \<Rightarrow> 'a \<Rightarrow> 'a list \<Rightarrow> 'a list" where
  "sortInsert cmp x [] = [x]"
| "sortInsert cmp x (y # ys) =
     (if sortCompare cmp x y \<le> 0 then x # y # ys else y # sortInsert cmp x ys)"

fun sort_arr :: "('a \<Rightarrow> 'a \<Rightarrow> int option) \<Rightarrow> 'a list \<Rightarrow> 'a list" where
  "sort_arr cmp [] = []"
| "sort_arr cmp (x # xs) = sortInsert cmp x (sort_arr cmp xs)"

text \<open>\<^verbatim>\<open>sorted\<close>, the list that is rendered.\<close>

definition sorted_incidents ::
  "(string \<Rightarrow> string) \<Rightarrow> (string \<Rightarrow> int option) \<Rightarrow> App \<Rightarrow> Incident list" where
  "sorted_incidents toLowerCase getTime st =
     sort_arr (compareFn getTime (sortOrder st)) (filtered toLowerCase st)"

subsection \<open>The events of the page\<close>

text \<open>
  One event for each input of the page; \<open>Submit now stamp\<close> carries the two clock reads of
  the handler it runs.
\<close>

datatype event =
    SetSearch string
  | SetFilter string
  | SetSortOrder string
  | SetTitle string
  | SetDescription string
  | SetTags string
  | SetSeverity string
  | Submit int string
  | Details int
  | Acknowledge int

fun step :: "(string \<Rightarrow> string) \<Rightarrow> App \<Rightarrow> event \<Rightarrow> App" where
  "step trim st (SetSearch s) = st\<lparr>search := s\<rparr>"
| "step trim st (SetFilter s) = st\<lparr>filter_sev := s\<rparr>"
| "step trim st (SetSortOrder s) = st\<lparr>sortOrder := s\<rparr>"
| "step trim st (SetTitle s) = st\<lparr>newIncident := (newIncident st)\<lparr>draft_title := s\<rparr>\<rparr>"
| "step trim st (SetDescription s) = st\<lparr>newIncident := (newIncident st)\<lparr>draft_description := s\<rparr>\<rparr>"
| "step trim st (SetTags s) = st\<lparr>newIncident := (newIncident st)\<lparr>draft_tags := s\<rparr>\<rparr>"
| "step trim st (SetSeverity s) = st\<lparr>newIncident := (newIncident st)\<lparr>draft_severity := s\<rparr>\<rparr>"
| "step trim st (Submit now stamp) = handleAddIncident trim now stamp st"
| "step trim st (Details x) = toggleDetails x st"
| "step trim st (Acknowledge x) = toggleAcknowledge x st"

definition run :: "(string \<Rightarrow> string) \<Rightarrow> event list \<Rightarrow> App" where
  "run trim es = foldl (step trim) initialApp es"

subsection \<open>The platform's string functions on Latin-1 text\<close>

text \<open>
  Instances of the two string parameters for the examples. A character stands for the code
  unit of its number, so these strings are the JavaScript strings of code units below 256.
  There the white space of \<^verbatim>\<open>trim\<close> (the language's WhiteSpace and LineTerminator) is
  TAB, LF, VT, FF, CR, the space and the no-break space U+00A0, and \<^verbatim>\<open>toLowerCase\<close> maps
  each of the upper-case letters U+0041 to U+005A, U+00C0 to U+00D6 and U+00D8 to U+00DE to
  the code unit 32 above it and keeps every other code unit.
\<close>

definition latin1_isWhiteSpace :: "char \<Rightarrow> bool" where
  "latin1_isWhiteSpace c =
     (let n = (of_char c :: nat) in (9 \<le> n \<and> n \<le> 13) \<or> n = 32 \<or> n = 160)"

definition latin1_trim :: "string \<Rightarrow> string" where
  "latin1_trim s = rev (dropWhile latin1_isWhiteSpace (rev (dropWhile latin1_isWhiteSpace s)))"

definition latin1_isUpper :: "char \<Rightarrow> bool" where
  "latin1_isUpper c =
     (let n = (of_char c :: nat) in
        (65 \<le> n \<and> n \<le> 90) \<or> (192 \<le> n \<and> n \<le> 214) \<or> (216 \<le> n \<and> n \<le> 222))"

definition latin1_lowerChar :: "char \<Rightarrow> char" where
  "latin1_lowerChar c = (if latin1_isUpper c then char_of ((of_char c :: nat) + 32) else c)"

definition latin1_toLowerCase :: "string \<Rightarrow> string" where
  "latin1_toLowerCase s = map latin1_lowerChar s"

subsection \<open>The date parser on the ISO forms\<close>

text \<open>
  An instance of the parser for the forms of the language's date-time string format that
  the program holds and produces: \<^verbatim>\<open>YYYY-MM-DD\<close> (midnight UTC), \<^verbatim>\<open>YYYY-MM-DDTHH:mm:ssZ\<close>
  (the seed data) and \<^verbatim>\<open>YYYY-MM-DDTHH:mm:ss.sssZ\<close> (the form of \<^verbatim>\<open>toISOString\<close>), with hours
  from 00 to 23. Every other string is \<open>None\<close> here: a date-time without \<^verbatim>\<open>Z\<close> depends on
  the local time zone, and what is outside the format is left to the implementation.
  The day number is counted from 1970-01-01 in the proleptic Gregorian calendar.
\<close>

definition digitVal :: "char \<Rightarrow> int option" where
  "digitVal c = (let n = (of_char c :: nat) in
                   if 48 \<le> n \<and> n \<le> 57 then Some (int n - 48) else None)"

fun digits :: "int \<Rightarrow> string \<Rightarrow> int option" where
  "digits acc [] = Some acc"
| "digits acc (c # cs) =
     (case digitVal c of None \<Rightarrow> None | Some v \<Rightarrow> digits (10 * acc + v) cs)"

definition isLeap :: "int \<Rightarrow> bool" where
  "isLeap y = (y mod 4 = 0 \<and> (y mod 100 \<noteq> 0 \<or> y mod 400 = 0))"

definition daysInMonth :: "int \<Rightarrow> int \<Rightarrow> int" where
  "daysInMonth y m =
     (if m = 2 then (if isLeap y then 29 else 28)
      else if m = 4 \<or> m = 6 \<or> m = 9 \<or> m = 11 then 30 else 31)"

definition daysFromCivil :: "int \<Rightarrow> int \<Rightarrow> int \<Rightarrow> int" where
  "daysFromCivil y m d =
     (let y1 = (if m \<le> 2 then y - 1 else y);
          era = y1 div 400;
          yoe = y1 - era * 400;
          doy = (153 * (if m > 2 then m - 3 else m + 9) + 2) div 5 + d - 1;
          doe = yoe * 365 + yoe div 4 - yoe div 100 + doy
      in era * 146097 + doe - 719468)"

definition parseDay :: "string \<Rightarrow> int option" where
  "parseDay s =
     (if length s = 10 \<and> s ! 4 = CHR ''-'' \<and> s ! 7 = CHR ''-'' then
        (case (digits 0 (take 4 s), digits 0 (take 2 (drop 5 s)), digits 0 (drop 8 s)) of
           (Some y, Some m, Some d) \<Rightarrow>
             if 1 \<le> m \<and> m \<le> 12 \<and> 1 \<le> d \<and> d \<le> daysInMonth y m
             then Some (daysFromCivil y m d) else None
         | _ \<Rightarrow> None)
      else None)"

definition parseClock :: "string \<Rightarrow> int option" where
  "parseClock s =
     (if length s = 8 \<and> s ! 2 = CHR '':'' \<and> s ! 5 = CHR '':'' then
        (case (digits 0 (take 2 s), digits 0 (take 2 (drop 3 s)), digits 0 (drop 6 s)) of
           (Some h, Some m, Some sec) \<Rightarrow>
             if h \<le> 23 \<and> m \<le> 59 \<and> sec \<le> 59
             then Some ((h * 60 + m) * 60000 + sec * 1000) else None
         | _ \<Rightarrow> None)
      else None)"

definition parseMillis :: "string \<Rightarrow> int option" where
  "parseMillis s =
     (if s = ''Z'' then Some 0
      else if length s = 5 \<and> s ! 0 = CHR ''.'' \<and> s ! 4 = CHR ''Z''
      then digits 0 (take 3 (drop 1 s)) else None)"

definition isoGetTime :: "string \<Rightarrow> int option" where
  "isoGetTime s =
     (case parseDay (take 10 s) of
        None \<Rightarrow> None
      | Some day \<Rightarrow>
          if drop 10 s = [] then Some (day * 86400000)
          else if s ! 10 = CHR ''T'' then
            (case (parseClock (take 8 (drop 11 s)), parseMillis (drop 19 s)) of
               (Some c, Some ms) \<Rightarrow> Some (day * 86400000 + c + ms)
             | _ \<Rightarrow> None)
          else None)"


subsection \<open>What the specification calls the pipeline\<close>

text \<open>
  The specification's words, to be compared with the code's view: a case-insensitive
  substring test (both sides through the platform's \<open>toLowerCase\<close>, then a contiguous
  sublist), the two filters, and the instant of an incident.
\<close>

definition ciSubstring :: "(string \<Rightarrow> string) \<Rightarrow> string \<Rightarrow> string \<Rightarrow> bool" where
  "ciSubstring toLowerCase needle hay = sublist (toLowerCase needle) (toLowerCase hay)"

definition tagList :: "Incident \<Rightarrow> string list" where
  "tagList i = (case tags i of None \<Rightarrow> [] | Some l \<Rightarrow> l)"

definition spec_severityFilter :: "string \<Rightarrow> Incident list \<Rightarrow> Incident list" where
  "spec_severityFilter f xs = filter (\<lambda>i. f = ''All'' \<or> severity i = f) xs"

definition spec_searchFilter ::
  "(string \<Rightarrow> string) \<Rightarrow> string \<Rightarrow> Incident list \<Rightarrow> Incident list" where
  "spec_searchFilter toLowerCase s xs =
     filter (\<lambda>i. s = [] \<or> ciSubstring toLowerCase s (title i)
                 \<or> ciSubstring toLowerCase s (description i)
                 \<or> list_ex (ciSubstring toLowerCase s) (tagList i)) xs"

definition instant :: "(string \<Rightarrow> int option) \<Rightarrow> Incident \<Rightarrow> int" where
  "instant getTime i = (case getTime (reported_at i) of None \<Rightarrow> 0 | Some t \<Rightarrow> t)"

text \<open>
  The specification's sort: stable, by the instant, descending for \<^verbatim>\<open>"newest"\<close> and
  ascending otherwise (\<^const>\<open>sort_key\<close> is the library's stable sort by a key).
\<close>

definition spec_sort :: "(string \<Rightarrow> int option) \<Rightarrow> string \<Rightarrow> Incident list \<Rightarrow> Incident list" where
  "spec_sort getTime order xs =
     (if order = ''newest'' then sort_key (\<lambda>i. - instant getTime i) xs
      else sort_key (instant getTime) xs)"

text \<open>The key of that sort: the instant, negated for the descending order.\<close>

definition sortKey :: "(string \<Rightarrow> int option) \<Rightarrow> string \<Rightarrow> Incident \<Rightarrow> int" where
  "sortKey getTime order i = (if order = ''newest'' then - instant getTime i else instant getTime i)"

subsection \<open>Example states\<close>

definition mkIncident :: "int \<Rightarrow> string \<Rightarrow> string \<Rightarrow> Incident" where
  "mkIncident n sev date =
     \<lparr>id' = n, title = ''T'', description = ''D'', severity = sev, reported_at = date,
      acknowledged = False, tags = Some []\<rparr>"

definition exampleDraft :: Draft where
  "exampleDraft = \<lparr>draft_title = ''T'', draft_description = ''D'',
                    draft_severity = ''High'', draft_tags = ''a, b ,, c''\<rparr>"

definition blankDraft :: Draft where
  "blankDraft = \<lparr>draft_title = ''   '', draft_description = ''D'',
                  draft_severity = ''High'', draft_tags = ''a''\<rparr>"

definition nbspDraft :: Draft where
  "nbspDraft = \<lparr>draft_title = [CHR 0xA0], draft_description = ''D'',
                 draft_severity = ''Low'', draft_tags = []\<rparr>"

definition nbspTagsDraft :: Draft where
  "nbspTagsDraft = \<lparr>draft_title = ''T'', draft_description = ''D'',
                     draft_severity = ''Low'', draft_tags = [CHR ''a'', CHR '','', CHR 0xA0, CHR '','', CHR ''b'']\<rparr>"

definition cafeIncident :: "string list option \<Rightarrow> Incident" where
  "cafeIncident ts =
     \<lparr>id' = 9, title = [CHR ''C'', CHR ''A'', CHR ''F'', CHR 0xC9], description = ''D'',
      severity = ''Low'', reported_at = ''2025-04-04'', acknowledged = False, tags = ts\<rparr>"

definition cafe :: string where
  "cafe = [CHR ''c'', CHR ''a'', CHR ''f'', CHR 0xE9]"

definition cafeApp :: App where
  "cafeApp =
     initialApp\<lparr>incidents := [(mkIncident 1 ''Low'' ''2025-03-15'')\<lparr>title := cafe\<rparr>,
                               cafeIncident (Some []),
                               (mkIncident 2 ''Low'' ''2025-04-01'')\<lparr>title := ''Tea''\<rparr>,
                               (mkIncident 3 ''Low'' ''2025-03-20'')\<lparr>title := ''Tea''\<rparr>],
                 search := cafe\<rparr>"

definition datesApp :: "string \<Rightarrow> App" where
  "datesApp order =
     initialApp\<lparr>incidents := [mkIncident 1 ''Low'' ''2025-03-15'',
                               mkIncident 2 ''Low'' ''2025-04-01'',
                               mkIncident 3 ''Low'' ''2025-03-20''],
                 sortOrder := order\<rparr>"

definition severitiesApp :: App where
  "severitiesApp =
     initialApp\<lparr>incidents := [mkIncident 1 ''Low'' ''2025-03-15'',
                               mkIncident 2 ''High'' ''2025-04-01'',
                               mkIncident 3 ''Medium'' ''2025-03-20'',
                               mkIncident 4 ''High'' ''2025-03-01''],
                 filter_sev := ''High''\<rparr>"

definition llmTagIncident :: Incident where
  "llmTagIncident =
     \<lparr>id' = 7, title = ''Wrong dosage advice'', description = ''The assistant invented a limit'',
      severity = ''High'', reported_at = ''2025-04-02'', acknowledged = False,
      tags = Some [''Safety'', ''LLM'']\<rparr>"

definition untaggedIncident :: Incident where
  "untaggedIncident =
     \<lparr>id' = 8, title = ''LLM outage'', description = ''No answer for an hour'',
      severity = ''Low'', reported_at = ''2025-04-03'', acknowledged = False,
      tags = None\<rparr>"

definition collidingEvents :: "event list" where
  "collidingEvents =
     [SetTitle ''A'', SetDescription ''B'', Submit 1743517800000 ''2025-04-01T14:30:00.000Z'',
      SetTitle ''C'', SetDescription ''D'', Submit 1743517800000 ''2025-04-01T14:30:00.000Z'']"

section \<open>Properties\<close>

subsection \<open>The string primitives\<close>

text \<open>
  The pieces of a split contain no separator and, joined by the separator, give the
  string back; they are the only such list of pieces. \<^const>\<open>includes_str\<close> is the
  contiguous-sublist relation.
\<close>

lemma split_str_not_Nil: "split_str sep s \<noteq> []"
  by (induction s) (auto split: list.splits)

lemma split_str_no_sep: "p \<in> set (split_str sep s) \<Longrightarrow> sep \<notin> set p"
  by (induction s arbitrary: p) (auto split: if_splits list.splits)

lemma join_str_Cons: "join_str sep ((a # p) # ps) = a # join_str sep (p # ps)"
  by (cases ps) simp_all

lemma split_str_join: "join_str sep (split_str sep s) = s"
  by (induction s) (auto split: list.splits simp: split_str_not_Nil join_str_Cons)

lemma split_str_piece: "sep \<notin> set p \<Longrightarrow> split_str sep p = [p]"
  by (induction p) auto

lemma split_str_append: "sep \<notin> set p \<Longrightarrow> split_str sep (p @ sep # r) = p # split_str sep r"
  by (induction p) auto

lemma split_str_unique:
  assumes "pieces \<noteq> []" and "\<forall>p \<in> set pieces. sep \<notin> set p"
  shows "split_str sep (join_str sep pieces) = pieces"
  using assms
proof (induction sep pieces rule: join_str.induct)
  case (1 sep)
  then show ?case by simp
next
  case (2 sep p)
  then show ?case by (simp add: split_str_piece)
next
  case (3 sep p q ps)
  then show ?case by (simp add: split_str_append)
qed

lemma includes_str_sublist: "includes_str s t \<longleftrightarrow> sublist t s"
  by (induction s) (simp_all add: sublist_Cons_right)

text \<open>
  The Latin-1 instance of \<^verbatim>\<open>trim\<close>: the result is empty exactly for a string of white
  space; the string is the result between two runs of white space; a non-empty result
  neither starts nor ends with white space. The Latin-1 instance of \<^verbatim>\<open>toLowerCase\<close> is
  idempotent.
\<close>

lemma dropWhile_all: "(\<forall>c \<in> set (dropWhile P s). P c) \<longleftrightarrow> (\<forall>c \<in> set s. P c)"
proof
  assume "\<forall>c \<in> set (dropWhile P s). P c"
  then have "dropWhile P s = []"
    by (metis hd_dropWhile list.set_sel(1))
  then show "\<forall>c \<in> set s. P c"
    by (simp add: dropWhile_eq_Nil_conv)
next
  assume "\<forall>c \<in> set s. P c"
  then show "\<forall>c \<in> set (dropWhile P s). P c"
    by (meson set_dropWhileD)
qed

lemma latin1_trim_blank: "latin1_trim s = [] \<longleftrightarrow> (\<forall>c \<in> set s. latin1_isWhiteSpace c)"
  by (simp add: latin1_trim_def dropWhile_eq_Nil_conv dropWhile_all)

lemma latin1_trim_decomp:
  "\<exists>a b. s = a @ latin1_trim s @ b
         \<and> (\<forall>c \<in> set a. latin1_isWhiteSpace c) \<and> (\<forall>c \<in> set b. latin1_isWhiteSpace c)"
proof -
  let ?P = latin1_isWhiteSpace
  let ?d = "dropWhile ?P s"
  have "rev ?d = takeWhile ?P (rev ?d) @ dropWhile ?P (rev ?d)"
    by simp
  then have "?d = latin1_trim s @ rev (takeWhile ?P (rev ?d))"
    by (metis latin1_trim_def rev_append rev_rev_ident)
  then have "s = takeWhile ?P s @ latin1_trim s @ rev (takeWhile ?P (rev ?d))"
    by (metis takeWhile_dropWhile_id)
  moreover have "\<forall>c \<in> set (takeWhile ?P s). ?P c"
    by (meson set_takeWhileD)
  moreover have "\<forall>c \<in> set (rev (takeWhile ?P (rev ?d))). ?P c"
    by (metis set_rev set_takeWhileD)
  ultimately show ?thesis
    by blast
qed

lemma latin1_trim_ends:
  assumes "latin1_trim s \<noteq> []"
  shows "\<not> latin1_isWhiteSpace (hd (latin1_trim s)) \<and> \<not> latin1_isWhiteSpace (last (latin1_trim s))"
proof -
  let ?P = latin1_isWhiteSpace
  let ?d = "dropWhile ?P s"
  from assms have ne: "dropWhile ?P (rev ?d) \<noteq> []"
    by (simp add: latin1_trim_def)
  then have "\<not> ?P (hd (dropWhile ?P (rev ?d)))"
    by (rule hd_dropWhile)
  with ne have l: "\<not> ?P (last (latin1_trim s))"
    by (simp add: latin1_trim_def last_rev)
  have dne: "?d \<noteq> []"
  proof
    assume "?d = []"
    with ne show False by simp
  qed
  then have hd: "\<not> ?P (hd ?d)"
    by (rule hd_dropWhile)
  have "rev ?d = takeWhile ?P (rev ?d) @ dropWhile ?P (rev ?d)"
    by simp
  then have "?d = latin1_trim s @ rev (takeWhile ?P (rev ?d))"
    by (metis latin1_trim_def rev_append rev_rev_ident)
  with assms have "hd ?d = hd (latin1_trim s)"
    by (metis hd_append2)
  with hd l show ?thesis
    by simp
qed

lemma latin1_toLowerCase_Nil: "latin1_toLowerCase [] = []"
  by (simp add: latin1_toLowerCase_def)

lemma latin1_lowerChar_idem: "latin1_lowerChar (latin1_lowerChar c) = latin1_lowerChar c"
proof (cases "latin1_isUpper c")
  case False
  then show ?thesis by (simp add: latin1_lowerChar_def)
next
  case True
  have small: "(of_char c :: nat) + 32 < 256" if "latin1_isUpper c"
    using that by (auto simp: latin1_isUpper_def Let_def)
  from True have "\<not> latin1_isUpper (char_of ((of_char c :: nat) + 32))"
    using small [OF True] by (auto simp: latin1_isUpper_def Let_def)
  with True show ?thesis by (simp add: latin1_lowerChar_def)
qed

lemma latin1_toLowerCase_idem: "latin1_toLowerCase (latin1_toLowerCase s) = latin1_toLowerCase s"
  by (simp add: latin1_toLowerCase_def latin1_lowerChar_idem)

subsection \<open>Adding an incident\<close>

text \<open>
  C1. When the draft's title and description are non-empty after trimming,
  \<^verbatim>\<open>handleAddIncident\<close> puts a new incident at index 0 of the Store, in front of the
  previous incidents, which follow unchanged and in their order. The new incident is not
  acknowledged, its \<^verbatim>\<open>reported_at\<close> is the clock's ISO string and its id the clock's time
  value, its severity, title and description are the draft's. Its tags are the pieces of
  the draft's tag text between the commas (the comma-free strings that, joined by commas,
  give the tag text), each trimmed, the empty results dropped, in their order. The draft is
  reset to the empty defaults and nothing else of the state changes. This holds for every
  \<open>trim\<close>, so for the platform's.
\<close>

theorem add_valid_prepends:
  assumes "trim (draft_title (newIncident st)) \<noteq> []"
    and "trim (draft_description (newIncident st)) \<noteq> []"
  shows "\<exists>e. incidents (handleAddIncident trim now stamp st) = e # incidents st
           \<and> acknowledged e = False
           \<and> reported_at e = stamp
           \<and> id' e = now
           \<and> severity e = draft_severity (newIncident st)
           \<and> title e = draft_title (newIncident st)
           \<and> description e = draft_description (newIncident st)
           \<and> tags e = Some (filter (\<lambda>tag. tag \<noteq> [])
                              (map trim (split_str CHR '','' (draft_tags (newIncident st)))))
           \<and> (\<forall>pieces. pieces \<noteq> [] \<and> (\<forall>p \<in> set pieces. CHR '','' \<notin> set p)
                  \<and> join_str CHR '','' pieces = draft_tags (newIncident st)
                 \<longrightarrow> tags e = Some (filter (\<lambda>tag. tag \<noteq> []) (map trim pieces)))
           \<and> newIncident (handleAddIncident trim now stamp st) = emptyDraft
           \<and> handleAddIncident trim now stamp st
               = st\<lparr>incidents := e # incidents st, newIncident := emptyDraft\<rparr>"
proof -
  have "split_str CHR '','' (draft_tags (newIncident st)) = pieces"
    if "pieces \<noteq> []" "\<forall>p \<in> set pieces. CHR '','' \<notin> set p"
      "join_str CHR '','' pieces = draft_tags (newIncident st)" for pieces
    using split_str_unique [OF that(1,2)] that(3) by simp
  with assms show ?thesis
    by (auto simp: handleAddIncident_def newEntry_def)
qed

theorem add_valid_prepends_witness:
  "latin1_trim (draft_title exampleDraft) \<noteq> [] \<and> latin1_trim (draft_description exampleDraft) \<noteq> []
   \<and> join_str CHR '','' [''a'', '' b '', [], '' c''] = draft_tags exampleDraft
   \<and> incidents (handleAddIncident latin1_trim 1743517800000 ''2025-04-01T14:30:00.000Z''
                (initialApp\<lparr>newIncident := exampleDraft\<rparr>))
     = \<lparr>id' = 1743517800000, title = ''T'', description = ''D'', severity = ''High'',
        reported_at = ''2025-04-01T14:30:00.000Z'', acknowledged = False,
        tags = Some [''a'', ''b'', ''c'']\<rparr> # initialIncidents
   \<and> newIncident (handleAddIncident latin1_trim 1743517800000 ''2025-04-01T14:30:00.000Z''
                (initialApp\<lparr>newIncident := exampleDraft\<rparr>)) = emptyDraft"
proof -
  let ?st = "initialApp\<lparr>newIncident := exampleDraft\<rparr>"
  let ?pieces = "[''a'', '' b '', [], '' c'']"
  have t: "latin1_trim (draft_title exampleDraft) \<noteq> []" by code_simp
  have d: "latin1_trim (draft_description exampleDraft) \<noteq> []" by code_simp
  have j: "join_str CHR '','' ?pieces = draft_tags exampleDraft" by code_simp
  have pieces: "?pieces \<noteq> [] \<and> (\<forall>p \<in> set ?pieces. CHR '','' \<notin> set p)
                  \<and> join_str CHR '','' ?pieces = draft_tags (newIncident ?st)"
    using j by simp
  have trimmed: "filter (\<lambda>tag. tag \<noteq> []) (map latin1_trim ?pieces) = [''a'', ''b'', ''c'']"
    by code_simp
  have t': "latin1_trim (draft_title (newIncident ?st)) \<noteq> []" using t by simp
  have d': "latin1_trim (draft_description (newIncident ?st)) \<noteq> []" using d by simp
  from add_valid_prepends [OF t' d', of 1743517800000 "''2025-04-01T14:30:00.000Z''"]
  obtain e where e: "incidents (handleAddIncident latin1_trim 1743517800000 ''2025-04-01T14:30:00.000Z'' ?st)
                       = e # incidents ?st"
      "acknowledged e = False" "reported_at e = ''2025-04-01T14:30:00.000Z''"
      "id' e = 1743517800000" "severity e = draft_severity (newIncident ?st)"
      "title e = draft_title (newIncident ?st)"
      "description e = draft_description (newIncident ?st)"
    and all: "\<forall>pieces. pieces \<noteq> [] \<and> (\<forall>p \<in> set pieces. CHR '','' \<notin> set p)
                  \<and> join_str CHR '','' pieces = draft_tags (newIncident ?st)
                 \<longrightarrow> tags e = Some (filter (\<lambda>tag. tag \<noteq> []) (map latin1_trim pieces))"
    and reset: "newIncident (handleAddIncident latin1_trim 1743517800000 ''2025-04-01T14:30:00.000Z'' ?st)
                  = emptyDraft"
    by blast
  from all pieces have "tags e = Some (filter (\<lambda>tag. tag \<noteq> []) (map latin1_trim ?pieces))"
    by blast
  with trimmed have "tags e = Some [''a'', ''b'', ''c'']"
    by simp
  with e(2-7) have "e = \<lparr>id' = 1743517800000, title = ''T'', description = ''D'', severity = ''High'',
        reported_at = ''2025-04-01T14:30:00.000Z'', acknowledged = False,
        tags = Some [''a'', ''b'', ''c'']\<rparr>"
    by (cases e) (simp add: exampleDraft_def)
  with e(1) t d j reset show ?thesis
    by (simp add: initialApp_def)
qed

text \<open>A tag piece of one no-break space is dropped, as an empty piece is.\<close>

lemma nbsp_tag_dropped:
  "tags (newEntry latin1_trim 5 ''2025-04-01T14:30:00.000Z'' nbspTagsDraft) = Some [''a'', ''b'']"
  by code_simp

text \<open>
  C2. When the draft's title or description is empty after trimming (white space only, for
  example), \<^verbatim>\<open>handleAddIncident\<close> returns the state it was given: the Store, the draft and
  every other field are the same, and the handler has no failing branch. This holds for
  every \<open>trim\<close>, so for the platform's.
\<close>

theorem add_blank_noop:
  "trim (draft_title (newIncident st)) = [] \<or> trim (draft_description (newIncident st)) = []
   \<Longrightarrow> handleAddIncident trim now stamp st = st"
  by (simp add: handleAddIncident_def)

theorem add_blank_noop_witness:
  "latin1_trim (draft_title blankDraft) = [] \<and> latin1_trim (draft_title nbspDraft) = []
   \<and> handleAddIncident latin1_trim 1743517800000 ''2025-04-01T14:30:00.000Z''
       (initialApp\<lparr>newIncident := blankDraft\<rparr>) = initialApp\<lparr>newIncident := blankDraft\<rparr>
   \<and> handleAddIncident latin1_trim 1743517800000 ''2025-04-01T14:30:00.000Z''
       (initialApp\<lparr>newIncident := nbspDraft\<rparr>) = initialApp\<lparr>newIncident := nbspDraft\<rparr>"
proof -
  have blank: "latin1_trim (draft_title blankDraft) = []"
    and nbsp: "latin1_trim (draft_title nbspDraft) = []"
    by code_simp+
  from blank have b: "latin1_trim (draft_title (newIncident (initialApp\<lparr>newIncident := blankDraft\<rparr>))) = []
      \<or> latin1_trim (draft_description (newIncident (initialApp\<lparr>newIncident := blankDraft\<rparr>))) = []"
    by simp
  from nbsp have n: "latin1_trim (draft_title (newIncident (initialApp\<lparr>newIncident := nbspDraft\<rparr>))) = []
      \<or> latin1_trim (draft_description (newIncident (initialApp\<lparr>newIncident := nbspDraft\<rparr>))) = []"
    by simp
  from add_blank_noop [OF b] add_blank_noop [OF n] blank nbsp show ?thesis
    by simp
qed

subsection \<open>Acknowledging\<close>

lemma toggle_incidents:
  "incidents (toggleAcknowledge x st) =
     map (\<lambda>a. if id' a = x then a\<lparr>acknowledged := \<not> acknowledged a\<rparr> else a) (incidents st)"
  by (simp add: toggleAcknowledge_def)

lemma toggle_twice: "toggleAcknowledge x (toggleAcknowledge x st) = st"
proof -
  have "map ((\<lambda>a. if id' a = x then a\<lparr>acknowledged := \<not> acknowledged a\<rparr> else a) \<circ>
             (\<lambda>a. if id' a = x then a\<lparr>acknowledged := \<not> acknowledged a\<rparr> else a)) xs = xs"
    for xs :: "Incident list"
    by (rule map_idI) simp
  then show ?thesis
    by (simp add: toggleAcknowledge_def)
qed

lemma toggle_funpow:
  "(toggleAcknowledge x ^^ n) st = (if even n then st else toggleAcknowledge x st)"
  by (induction n) (simp_all add: toggle_twice)

text \<open>
  C3. \<^verbatim>\<open>toggleAcknowledge\<close> keeps the length and the order of the Store. At every index,
  an incident whose id is the given one has its \<^verbatim>\<open>acknowledged\<close> flag negated and every
  other field as before; an incident with another id is the same. When no incident has
  the id the state is unchanged, and in every case only the Store's field of the state
  changes.
\<close>

theorem toggle_frame:
  "length (incidents (toggleAcknowledge x st)) = length (incidents st)
   \<and> (\<forall>k < length (incidents st).
         (id' (incidents st ! k) = x \<longrightarrow>
            incidents (toggleAcknowledge x st) ! k
              = (incidents st ! k)\<lparr>acknowledged := \<not> acknowledged (incidents st ! k)\<rparr>
            \<and> acknowledged (incidents (toggleAcknowledge x st) ! k) = (\<not> acknowledged (incidents st ! k))
            \<and> id' (incidents (toggleAcknowledge x st) ! k) = id' (incidents st ! k)
            \<and> title (incidents (toggleAcknowledge x st) ! k) = title (incidents st ! k)
            \<and> description (incidents (toggleAcknowledge x st) ! k) = description (incidents st ! k)
            \<and> severity (incidents (toggleAcknowledge x st) ! k) = severity (incidents st ! k)
            \<and> reported_at (incidents (toggleAcknowledge x st) ! k) = reported_at (incidents st ! k)
            \<and> tags (incidents (toggleAcknowledge x st) ! k) = tags (incidents st ! k))
         \<and> (id' (incidents st ! k) \<noteq> x \<longrightarrow>
            incidents (toggleAcknowledge x st) ! k = incidents st ! k))
   \<and> (x \<notin> id' ` set (incidents st) \<longrightarrow> toggleAcknowledge x st = st)
   \<and> toggleAcknowledge x st = st\<lparr>incidents := incidents (toggleAcknowledge x st)\<rparr>"
proof -
  have "toggleAcknowledge x st = st" if "x \<notin> id' ` set (incidents st)"
  proof -
    have "map (\<lambda>a. if id' a = x then a\<lparr>acknowledged := \<not> acknowledged a\<rparr> else a) (incidents st)
            = incidents st"
      using that by (intro map_idI) auto
    then show ?thesis
      by (simp add: toggleAcknowledge_def)
  qed
  then show ?thesis
    by (simp add: toggle_incidents) (simp add: toggleAcknowledge_def)
qed

theorem toggle_frame_witness:
  "1 < length (incidents initialApp) \<and> id' (incidents initialApp ! 1) = 2
   \<and> id' (incidents initialApp ! 0) \<noteq> 2 \<and> 7 \<notin> id' ` set (incidents initialApp)
   \<and> acknowledged (incidents (toggleAcknowledge 2 initialApp) ! 1) = True
   \<and> incidents (toggleAcknowledge 2 initialApp) ! 0 = incidents initialApp ! 0
   \<and> length (incidents (toggleAcknowledge 2 initialApp)) = 3
   \<and> toggleAcknowledge 7 initialApp = initialApp"
proof -
  have len: "length (incidents initialApp) = 3"
    by (simp add: initialApp_def initialIncidents_def)
  have absent: "7 \<notin> id' ` set (incidents initialApp)"
    by (simp add: initialApp_def initialIncidents_def)
  have ids: "id' (incidents initialApp ! 0) \<noteq> 2" "id' (incidents initialApp ! 1) = 2"
    and ack: "\<not> acknowledged (incidents initialApp ! 1)"
    by (simp_all add: initialApp_def initialIncidents_def)
  from absent toggle_frame [of 7 initialApp]
  have noop: "toggleAcknowledge 7 initialApp = initialApp"
    by blast
  note f = toggle_frame [of 2 initialApp]
  from f len have l: "length (incidents (toggleAcknowledge 2 initialApp)) = 3"
    by simp
  from f len ids ack
  have "incidents (toggleAcknowledge 2 initialApp) ! 0 = incidents initialApp ! 0"
    "acknowledged (incidents (toggleAcknowledge 2 initialApp) ! 1) = True"
    by simp_all
  with len absent ids noop l show ?thesis
    by simp
qed

text \<open>
  C4. After \<open>n\<close> calls of \<^verbatim>\<open>toggleAcknowledge\<close> with the same id, the state is the initial
  one when \<open>n\<close> is even and the state after one call when \<open>n\<close> is odd; the flag of a matching
  incident is its initial value xor ``\<open>n\<close> is odd''; two calls give the state back.
\<close>

theorem toggle_parity:
  "(toggleAcknowledge x ^^ n) st = (if even n then st else toggleAcknowledge x st)
   \<and> (\<forall>k < length (incidents st). id' (incidents st ! k) = x \<longrightarrow>
         acknowledged (incidents ((toggleAcknowledge x ^^ n) st) ! k)
           = (acknowledged (incidents st ! k) \<noteq> odd n))
   \<and> toggleAcknowledge x (toggleAcknowledge x st) = st"
  by (auto simp: toggle_funpow toggle_twice toggle_incidents)

theorem toggle_parity_witness:
  "map acknowledged (incidents ((toggleAcknowledge 2 ^^ 3) initialApp)) = [False, True, False]
   \<and> map acknowledged (incidents ((toggleAcknowledge 2 ^^ 4) initialApp)) = [False, False, False]
   \<and> toggleAcknowledge 2 (toggleAcknowledge 2 initialApp) = initialApp"
proof -
  from toggle_parity [where x = 2 and n = 3 and st = initialApp]
  have three: "(toggleAcknowledge 2 ^^ 3) initialApp = toggleAcknowledge 2 initialApp"
    by simp
  from toggle_parity [where x = 2 and n = 4 and st = initialApp]
  have four: "(toggleAcknowledge 2 ^^ 4) initialApp = initialApp"
    and twice: "toggleAcknowledge 2 (toggleAcknowledge 2 initialApp) = initialApp"
    by simp_all
  show ?thesis
    unfolding three four using twice
    by (simp add: toggleAcknowledge_def initialApp_def initialIncidents_def)
qed

subsection \<open>The derived view\<close>

lemma searchKeep_spec:
  "searchKeep toLowerCase s i \<longleftrightarrow>
     ciSubstring toLowerCase s (title i) \<or> ciSubstring toLowerCase s (description i)
     \<or> (\<exists>tag \<in> set (tagList i). ciSubstring toLowerCase s tag)"
  by (cases "tags i")
     (auto simp: searchKeep_def searchValue_def truthy_def tagsSome_def tagList_def
        ciSubstring_def includes_str_sublist list_ex_iff)

lemma ciSubstring_empty: "toLowerCase [] = [] \<Longrightarrow> ciSubstring toLowerCase [] hay"
  by (simp add: ciSubstring_def)

lemma searchKeep_spec_empty:
  assumes "toLowerCase [] = []"
  shows "searchKeep toLowerCase s i \<longleftrightarrow>
     s = [] \<or> ciSubstring toLowerCase s (title i) \<or> ciSubstring toLowerCase s (description i)
     \<or> (\<exists>tag \<in> set (tagList i). ciSubstring toLowerCase s tag)"
  using ciSubstring_empty [where toLowerCase = toLowerCase, OF assms] by (auto simp: searchKeep_spec)

lemma severityKeep_spec: "severityKeep f i \<longleftrightarrow> f = ''All'' \<or> severity i = f"
  by (simp add: severityKeep_def)

lemma filtered_spec:
  assumes "toLowerCase [] = []"
  shows "filtered toLowerCase st
           = spec_searchFilter toLowerCase (search st)
               (spec_severityFilter (filter_sev st) (incidents st))"
  by (simp add: filtered_def severityFiltered_def spec_searchFilter_def spec_severityFilter_def
      searchKeep_spec_empty [where toLowerCase = toLowerCase, OF assms] severityKeep_spec list_ex_iff cong: filter_cong)

text \<open>
  C7. The severity filter keeps an incident exactly when the filter is \<^verbatim>\<open>"All"\<close> or equals
  the incident's severity; the kept incidents are a subsequence of the Store, so they are in
  their original relative order.
\<close>

theorem severity_filter_keeps:
  "(severityKeep f i \<longleftrightarrow> f = ''All'' \<or> severity i = f)
   \<and> severityFiltered st
       = filter (\<lambda>i. filter_sev st = ''All'' \<or> severity i = filter_sev st) (incidents st)
   \<and> subseq (severityFiltered st) (incidents st)"
  by (simp add: severityFiltered_def severityKeep_spec cong: filter_cong)

theorem severity_filter_keeps_witness:
  "map severity (incidents severitiesApp) = [''Low'', ''High'', ''Medium'', ''High'']
   \<and> map id' (severityFiltered severitiesApp) = [2, 4]
   \<and> map severity (severityFiltered severitiesApp) = [''High'', ''High'']"
proof -
  have "map id' (filter (\<lambda>i. filter_sev severitiesApp = ''All'' \<or> severity i = filter_sev severitiesApp)
                   (incidents severitiesApp)) = [2, 4]"
    "map severity (filter (\<lambda>i. filter_sev severitiesApp = ''All'' \<or> severity i = filter_sev severitiesApp)
                   (incidents severitiesApp)) = [''High'', ''High'']"
    "map severity (incidents severitiesApp) = [''Low'', ''High'', ''Medium'', ''High'']"
    by code_simp+
  with severity_filter_keeps [of _ _ severitiesApp] show ?thesis
    by simp
qed

text \<open>
  C6. The search filter keeps an incident exactly when the search text is empty, or its
  lower-case form is a substring of the lower-case form of the title, of the description or
  of one of the tags: the lower-case form of the one occurs, as a run of consecutive code
  units, in the lower-case form of the other. The empty search text is a case of the
  substring test. This holds for every \<open>toLowerCase\<close> that maps the empty string to itself,
  so for the platform's.
\<close>

theorem search_keep_iff:
  assumes "toLowerCase [] = []"
  shows "(searchKeep toLowerCase s i \<longleftrightarrow>
            s = [] \<or> ciSubstring toLowerCase s (title i)
            \<or> ciSubstring toLowerCase s (description i)
            \<or> (\<exists>tag \<in> set (tagList i). ciSubstring toLowerCase s tag))
         \<and> (searchKeep toLowerCase s i \<longleftrightarrow>
            includes_str (toLowerCase (title i)) (toLowerCase s)
            \<or> includes_str (toLowerCase (description i)) (toLowerCase s)
            \<or> (\<exists>tag \<in> set (tagList i). includes_str (toLowerCase tag) (toLowerCase s)))
         \<and> (ciSubstring toLowerCase s hay \<longleftrightarrow>
              (\<exists>before after. toLowerCase hay = before @ toLowerCase s @ after))"
  using searchKeep_spec_empty [where toLowerCase = toLowerCase and s = s and i = i, OF assms]
    searchKeep_spec [of toLowerCase s i]
  by (simp add: ciSubstring_def includes_str_sublist) (simp add: sublist_def)

theorem search_keep_iff_witness:
  "latin1_toLowerCase [] = []
   \<and> ciSubstring latin1_toLowerCase ''llm'' ''LLM''
   \<and> \<not> ciSubstring latin1_toLowerCase ''llm'' (title llmTagIncident)
   \<and> \<not> ciSubstring latin1_toLowerCase ''llm'' (description llmTagIncident)
   \<and> searchKeep latin1_toLowerCase ''llm'' llmTagIncident
   \<and> \<not> searchKeep latin1_toLowerCase ''gpt'' llmTagIncident
   \<and> searchKeep latin1_toLowerCase [] llmTagIncident
   \<and> searchKeep latin1_toLowerCase cafe (cafeIncident (Some []))"
proof -
  note iff = search_keep_iff [where toLowerCase = latin1_toLowerCase, OF latin1_toLowerCase_Nil]
  have tag: "ciSubstring latin1_toLowerCase ''llm'' ''LLM''"
    and mem: "''LLM'' \<in> set (tagList llmTagIncident)"
    and no: "\<not> ciSubstring latin1_toLowerCase ''llm'' (title llmTagIncident)"
      "\<not> ciSubstring latin1_toLowerCase ''llm'' (description llmTagIncident)"
    and gpt: "\<not> (''gpt'' = [] \<or> ciSubstring latin1_toLowerCase ''gpt'' (title llmTagIncident)
              \<or> ciSubstring latin1_toLowerCase ''gpt'' (description llmTagIncident)
              \<or> (\<exists>tag \<in> set (tagList llmTagIncident). ciSubstring latin1_toLowerCase ''gpt'' tag))"
    and caf: "ciSubstring latin1_toLowerCase cafe (title (cafeIncident (Some [])))"
    by code_simp+
  from tag mem have "\<exists>tag \<in> set (tagList llmTagIncident). ciSubstring latin1_toLowerCase ''llm'' tag"
    by blast
  with iff [where s = "''llm''" and i = llmTagIncident] have llm: "searchKeep latin1_toLowerCase ''llm'' llmTagIncident"
    by blast
  from gpt iff [where s = "''gpt''" and i = llmTagIncident]
  have ngpt: "\<not> searchKeep latin1_toLowerCase ''gpt'' llmTagIncident"
    by blast
  from iff [where s = "[]" and i = llmTagIncident] have emp: "searchKeep latin1_toLowerCase [] llmTagIncident"
    by blast
  from caf iff [where s = cafe and i = "cafeIncident (Some [])"]
  have "searchKeep latin1_toLowerCase cafe (cafeIncident (Some []))"
    by blast
  with llm ngpt emp tag no latin1_toLowerCase_Nil show ?thesis
    by blast
qed

text \<open>
  C10. For an incident without the \<^verbatim>\<open>tags\<close> field the optional call yields \<^verbatim>\<open>undefined\<close>
  instead of failing: the callback's value is \<^verbatim>\<open>true\<close> when the title or the description
  matches and \<^verbatim>\<open>undefined\<close> otherwise, so the incident is kept exactly when the search text
  is a case-insensitive substring of its title or of its description. This holds for every
  \<open>toLowerCase\<close>.
\<close>

theorem search_absent_tags:
  "tags i = None \<Longrightarrow>
     searchValue toLowerCase s i
       = (if ciSubstring toLowerCase s (title i) \<or> ciSubstring toLowerCase s (description i)
          then Some True else None)
     \<and> (searchKeep toLowerCase s i \<longleftrightarrow>
          ciSubstring toLowerCase s (title i) \<or> ciSubstring toLowerCase s (description i))"
  by (simp add: searchKeep_def searchValue_def truthy_def tagsSome_def
      ciSubstring_def includes_str_sublist)

theorem search_absent_tags_witness:
  "tags untaggedIncident = None \<and> tags (cafeIncident None) = None
   \<and> searchKeep latin1_toLowerCase ''llm'' untaggedIncident
   \<and> searchKeep latin1_toLowerCase ''HOUR'' untaggedIncident
   \<and> \<not> searchKeep latin1_toLowerCase ''privacy'' untaggedIncident
   \<and> searchValue latin1_toLowerCase ''privacy'' untaggedIncident = None
   \<and> searchKeep latin1_toLowerCase cafe (cafeIncident None)"
proof -
  have none: "tags untaggedIncident = None" and cnone: "tags (cafeIncident None) = None"
    by (simp_all add: untaggedIncident_def cafeIncident_def)
  have "ciSubstring latin1_toLowerCase ''llm'' (title untaggedIncident)"
    "ciSubstring latin1_toLowerCase ''HOUR'' (description untaggedIncident)"
    "\<not> ciSubstring latin1_toLowerCase ''privacy'' (title untaggedIncident)"
    "\<not> ciSubstring latin1_toLowerCase ''privacy'' (description untaggedIncident)"
    "ciSubstring latin1_toLowerCase cafe (title (cafeIncident None))"
    by code_simp+
  with none cnone
    search_absent_tags [OF none, of latin1_toLowerCase "''llm''"]
    search_absent_tags [OF none, of latin1_toLowerCase "''HOUR''"]
    search_absent_tags [OF none, of latin1_toLowerCase "''privacy''"]
    search_absent_tags [OF cnone, of latin1_toLowerCase cafe]
  show ?thesis
    by simp
qed

lemma sortCompare_key:
  assumes "getTime (reported_at a) \<noteq> None" and "getTime (reported_at b) \<noteq> None"
  shows "sortCompare (compareFn getTime order) a b \<le> 0
           \<longleftrightarrow> sortKey getTime order a \<le> sortKey getTime order b"
  using assms
  by (auto simp: sortCompare_def compareFn_def minus_num_def sortKey_def instant_def)

lemma sortInsert_insort_key:
  assumes "getTime (reported_at x) \<noteq> None"
    and "\<forall>i \<in> set ys. getTime (reported_at i) \<noteq> None"
  shows "sortInsert (compareFn getTime order) x ys = insort_key (sortKey getTime order) x ys"
  using assms by (induction ys) (simp_all add: sortCompare_key)

lemma sort_arr_sort_key:
  assumes "\<forall>i \<in> set xs. getTime (reported_at i) \<noteq> None"
  shows "sort_arr (compareFn getTime order) xs = sort_key (sortKey getTime order) xs"
  using assms by (induction xs) (simp_all add: sortInsert_insort_key)

lemma spec_sort_sortKey: "spec_sort getTime order xs = sort_key (sortKey getTime order) xs"
proof -
  have "sortKey getTime order = (if order = ''newest'' then (\<lambda>i. - instant getTime i)
                                 else instant getTime)"
    by (rule ext) (simp add: sortKey_def)
  then show ?thesis
    by (simp add: spec_sort_def)
qed

lemma filtered_subset: "set (filtered toLowerCase st) \<subseteq> set (incidents st)"
  by (auto simp: filtered_def severityFiltered_def)

text \<open>
  C5. When every \<^verbatim>\<open>reported_at\<close> of the Store parses to an instant, the rendered list is the
  specification's sort of the search filter of the severity filter of the Store. It is
  ordered by the parsed instant, descending for \<^verbatim>\<open>"newest"\<close> and ascending for any other sort
  order; incidents of one instant are in the order the filters left them in (the sort is
  stable); it has the incidents of the filtered list, each as often; and the filtered list
  is the code's search test applied to the result of the code's severity test. This holds
  for every date parser and every \<open>toLowerCase\<close> that maps the empty string to itself.
\<close>

theorem sorted_view:
  assumes "\<forall>i \<in> set (incidents st). getTime (reported_at i) \<noteq> None"
    and "toLowerCase [] = []"
  shows "sorted_incidents toLowerCase getTime st
           = spec_sort getTime (sortOrder st)
               (spec_searchFilter toLowerCase (search st)
                  (spec_severityFilter (filter_sev st) (incidents st)))
         \<and> (sortOrder st = ''newest'' \<longrightarrow>
              sorted_wrt (\<lambda>a b. instant getTime a \<ge> instant getTime b)
                (sorted_incidents toLowerCase getTime st))
         \<and> (sortOrder st \<noteq> ''newest'' \<longrightarrow>
              sorted_wrt (\<lambda>a b. instant getTime a \<le> instant getTime b)
                (sorted_incidents toLowerCase getTime st))
         \<and> (\<forall>t. filter (\<lambda>i. instant getTime i = t) (sorted_incidents toLowerCase getTime st)
                  = filter (\<lambda>i. instant getTime i = t) (filtered toLowerCase st))
         \<and> mset (sorted_incidents toLowerCase getTime st) = mset (filtered toLowerCase st)
         \<and> filtered toLowerCase st
             = filter (\<lambda>i. includes_str (toLowerCase (title i)) (toLowerCase (search st))
                          \<or> includes_str (toLowerCase (description i)) (toLowerCase (search st))
                          \<or> (\<exists>tag \<in> set (tagList i).
                                includes_str (toLowerCase tag) (toLowerCase (search st))))
                 (filter (\<lambda>i. filter_sev st = ''All'' \<or> severity i = filter_sev st) (incidents st))"
proof -
  let ?k = "sortKey getTime (sortOrder st)"
  let ?view = "sorted_incidents toLowerCase getTime st"
  let ?f = "filtered toLowerCase st"
  from assms(1) filtered_subset have "\<forall>i \<in> set ?f. getTime (reported_at i) \<noteq> None"
    by blast
  then have eq: "?view = sort_key ?k ?f"
    by (simp add: sorted_incidents_def sort_arr_sort_key)
  have "sorted (map ?k (sort_key ?k ?f))"
    by (rule sorted_sort_key)
  then have ord: "sorted_wrt (\<lambda>a b. ?k a \<le> ?k b) ?view"
    by (simp add: eq sorted_map)
  have stable: "filter (\<lambda>i. instant getTime i = t) ?view = filter (\<lambda>i. instant getTime i = t) ?f"
    for t
  proof (cases "sortOrder st = ''newest''")
    case True
    have "filter (\<lambda>i. ?k i = - t) (sort_key ?k ?f) = filter (\<lambda>i. ?k i = - t) ?f"
      by (rule sort_key_stable)
    with True show ?thesis by (simp add: eq sortKey_def)
  next
    case False
    have "filter (\<lambda>i. ?k i = t) (sort_key ?k ?f) = filter (\<lambda>i. ?k i = t) ?f"
      by (rule sort_key_stable)
    with False show ?thesis by (simp add: eq sortKey_def)
  qed
  have code: "?f = filter (\<lambda>i. includes_str (toLowerCase (title i)) (toLowerCase (search st))
                          \<or> includes_str (toLowerCase (description i)) (toLowerCase (search st))
                          \<or> (\<exists>tag \<in> set (tagList i).
                                includes_str (toLowerCase tag) (toLowerCase (search st))))
                 (filter (\<lambda>i. filter_sev st = ''All'' \<or> severity i = filter_sev st) (incidents st))"
    by (simp add: filtered_def severityFiltered_def searchKeep_spec severityKeep_spec
        ciSubstring_def includes_str_sublist cong: filter_cong)
  have "?view = spec_sort getTime (sortOrder st) ?f"
    by (simp add: eq spec_sort_sortKey)
  then have "?view = spec_sort getTime (sortOrder st)
               (spec_searchFilter toLowerCase (search st)
                  (spec_severityFilter (filter_sev st) (incidents st)))"
    by (simp add: filtered_spec [where toLowerCase = toLowerCase, OF assms(2)])
  moreover have "sortOrder st = ''newest'' \<Longrightarrow>
      sorted_wrt (\<lambda>a b. instant getTime a \<ge> instant getTime b) ?view"
    using ord by (simp add: sortKey_def)
  moreover have "sortOrder st \<noteq> ''newest'' \<Longrightarrow>
      sorted_wrt (\<lambda>a b. instant getTime a \<le> instant getTime b) ?view"
    using ord by (simp add: sortKey_def)
  moreover have "mset ?view = mset ?f"
    by (simp add: eq)
  ultimately show ?thesis
    using stable code by blast
qed

theorem sorted_view_witness:
  "list_all (\<lambda>i. isoGetTime (reported_at i) \<noteq> None) (incidents (datesApp ''newest''))
   \<and> list_all (\<lambda>i. isoGetTime (reported_at i) \<noteq> None) (incidents (datesApp ''oldest''))
   \<and> latin1_toLowerCase [] = []
   \<and> map reported_at (sorted_incidents latin1_toLowerCase isoGetTime (datesApp ''newest''))
        = [''2025-04-01'', ''2025-03-20'', ''2025-03-15'']
   \<and> map reported_at (sorted_incidents latin1_toLowerCase isoGetTime (datesApp ''oldest''))
        = [''2025-03-15'', ''2025-03-20'', ''2025-04-01'']
   \<and> map id' (sorted_incidents latin1_toLowerCase isoGetTime cafeApp) = [9, 1]"
proof -
  have ln: "list_all (\<lambda>i. isoGetTime (reported_at i) \<noteq> None) (incidents (datesApp ''newest''))"
    and lo: "list_all (\<lambda>i. isoGetTime (reported_at i) \<noteq> None) (incidents (datesApp ''oldest''))"
    and lc: "list_all (\<lambda>i. isoGetTime (reported_at i) \<noteq> None) (incidents cafeApp)"
    by code_simp+
  from ln have n: "\<forall>i \<in> set (incidents (datesApp ''newest'')). isoGetTime (reported_at i) \<noteq> None"
    by (simp add: list_all_iff)
  from lo have o: "\<forall>i \<in> set (incidents (datesApp ''oldest'')). isoGetTime (reported_at i) \<noteq> None"
    by (simp add: list_all_iff)
  from lc have c: "\<forall>i \<in> set (incidents cafeApp). isoGetTime (reported_at i) \<noteq> None"
    by (simp add: list_all_iff)
  note view = sorted_view [where toLowerCase = latin1_toLowerCase and getTime = isoGetTime]
  have "map reported_at (spec_sort isoGetTime (sortOrder (datesApp ''newest''))
          (spec_searchFilter latin1_toLowerCase (search (datesApp ''newest''))
             (spec_severityFilter (filter_sev (datesApp ''newest'')) (incidents (datesApp ''newest'')))))
        = [''2025-04-01'', ''2025-03-20'', ''2025-03-15'']"
    by code_simp
  moreover have "map reported_at (spec_sort isoGetTime (sortOrder (datesApp ''oldest''))
          (spec_searchFilter latin1_toLowerCase (search (datesApp ''oldest''))
             (spec_severityFilter (filter_sev (datesApp ''oldest'')) (incidents (datesApp ''oldest'')))))
        = [''2025-03-15'', ''2025-03-20'', ''2025-04-01'']"
    by code_simp
  moreover have "map id' (spec_sort isoGetTime (sortOrder cafeApp)
          (spec_searchFilter latin1_toLowerCase (search cafeApp)
             (spec_severityFilter (filter_sev cafeApp) (incidents cafeApp))))
        = [9, 1]"
    by code_simp
  ultimately show ?thesis
    using ln lo view [OF n latin1_toLowerCase_Nil] view [OF o latin1_toLowerCase_Nil]
      view [OF c latin1_toLowerCase_Nil] latin1_toLowerCase_Nil
    by simp
qed

subsection \<open>Expanding an incident\<close>

text \<open>
  The details button of incident \<open>x\<close> moves the expansion state from \<open>None\<close> and from
  \<open>Some y\<close> with \<open>y \<noteq> x\<close> to \<open>Some x\<close>, and from \<open>Some x\<close> to \<open>None\<close>. Where the ids of
  the Store are distinct, at most one incident is rendered with its details.
\<close>

lemma expanded_at_most_one:
  "distinct (map id' xs) \<Longrightarrow> length (filter (\<lambda>i. id' i = x) xs) \<le> 1"
proof (induction xs)
  case Nil
  then show ?case by simp
next
  case (Cons a xs)
  show ?case
  proof (cases "id' a = x")
    case True
    from Cons.prems have "id' a \<notin> id' ` set xs"
      by simp
    with True have "\<forall>i \<in> set xs. id' i \<noteq> x"
      by blast
    then have "filter (\<lambda>i. id' i = x) xs = []"
      by (simp add: filter_empty_conv)
    with True show ?thesis by simp
  next
    case False
    with Cons show ?thesis by simp
  qed
qed

lemma toggleDetails_transitions:
  "(expanded st = None \<longrightarrow> expanded (toggleDetails x st) = Some x)
   \<and> (\<forall>y. expanded st = Some y \<and> y \<noteq> x \<longrightarrow> expanded (toggleDetails x st) = Some x)
   \<and> (expanded st = Some x \<longrightarrow> expanded (toggleDetails x st) = None)"
  by (simp add: toggleDetails_def)

lemma one_expanded_when_distinct:
  assumes "distinct (map id' (incidents st))"
  shows "length (filter (showsDetails st) (incidents st)) \<le> 1"
proof (cases "expanded st")
  case None
  then show ?thesis by (simp add: showsDetails_def)
next
  case (Some y)
  then have "filter (showsDetails st) (incidents st) = filter (\<lambda>i. id' i = y) (incidents st)"
    by (auto simp: showsDetails_def intro: filter_cong)
  with expanded_at_most_one [OF assms, of y] show ?thesis by simp
qed

text \<open>
  C9. The expansion state holds one id, and the details are rendered for every incident
  with that id. After two reports submitted at one clock value the Store holds two
  incidents with one id; the details button of either sets the state to that id, and both
  incidents are rendered expanded.
\<close>

theorem two_incidents_expanded_on_equal_ids:
  "expanded (run latin1_trim (collidingEvents @ [Details 1743517800000])) = Some 1743517800000
   \<and> map title (filter (showsDetails (run latin1_trim (collidingEvents @ [Details 1743517800000])))
                  (incidents (run latin1_trim (collidingEvents @ [Details 1743517800000]))))
       = [''C'', ''A'']"
  by code_simp

subsection \<open>The ids of the Store\<close>

text \<open>
  Ids under the two handlers: \<^verbatim>\<open>toggleAcknowledge\<close> keeps them, and an added incident keeps
  them distinct when the clock's value is not yet an id of the Store.
\<close>

lemma toggle_keeps_ids:
  "map id' (incidents (toggleAcknowledge x st)) = map id' (incidents st)"
  by (simp add: toggle_incidents comp_def cong: map_cong)

lemma add_fresh_keeps_distinct:
  assumes "distinct (map id' (incidents st))" and "now \<notin> id' ` set (incidents st)"
  shows "distinct (map id' (incidents (handleAddIncident trim now stamp st)))"
  using assms by (simp add: handleAddIncident_def newEntry_def)

text \<open>
  C8. The id of a new incident is the clock's time value, and nothing compares it with the
  ids of the Store. Two reports submitted at one clock value get one id: the Store then
  holds two different incidents with the same id, the acknowledge button of one flips
  both, and the details button of one expands both.
\<close>

theorem duplicate_ids_on_equal_clock_reads:
  "map id' (incidents (run latin1_trim collidingEvents)) = [1743517800000, 1743517800000, 1, 2, 3]
   \<and> map title (take 2 (incidents (run latin1_trim collidingEvents))) = [''C'', ''A'']
   \<and> \<not> distinct (map id' (incidents (run latin1_trim collidingEvents)))
   \<and> map acknowledged (incidents (run latin1_trim (collidingEvents @ [Acknowledge 1743517800000])))
       = [True, True, False, False, False]
   \<and> length (filter (showsDetails (run latin1_trim (collidingEvents @ [Details 1743517800000])))
                (incidents (run latin1_trim (collidingEvents @ [Details 1743517800000])))) = 2"
  by code_simp

end
